theory Spec2Isabelle
  imports Complex_Main "HOL-Library.Sublist"
begin

section \<open>The world outside the submitter\<close>

text \<open>
  \<open>submit_SGE.py\<close> is a thin layer over the operating system: it runs \<open>qstat\<close> through
  \<open>os.popen\<close>, writes a shell script, hands it to \<open>qsub\<close> through \<open>subprocess.call\<close>,
  sleeps and removes the script. The model makes every such effect an event of a
  chronological trace, and takes what the outside answers from a \<open>host\<close>: the user name,
  the environment variables, the lines each \<open>os.popen\<close> call reads, and whether a file
  removal fails.

  Python strings are modelled as \<open>string\<close>; the source only concatenates them and searches
  one in another, which reads the same on bytes and on code points.
\<close>

datatype pyval = PInt int | PStr string

datatype event =
    Popen string
  | Open string
  | Write string
  | Close
  | Call "string list"
  | Sleep real
  | Remove string

datatype error = TypeError | AttributeError | ValueError | OSError

text \<open>
  What a call has done after a bounded number of loop iterations: it has returned, it has
  raised, or it is still inside its polling loop (\<open>Blocked\<close>).
\<close>

datatype outcome = Returned | Raised error | Blocked

record host =
  getuser :: string
  environ :: "string \<rightharpoonup> string"
  popen_readlines :: "string \<Rightarrow> nat \<Rightarrow> string list"
  remove_fails :: "string \<Rightarrow> nat \<Rightarrow> bool"

text \<open>
  \<open>popen_readlines h cmd i\<close> are the lines read from command \<open>cmd\<close> when it is the \<open>i\<close>-th
  process this run opens (counting from 0); \<open>remove_fails h f i\<close> says whether the \<open>i\<close>-th
  removal of this run, of file \<open>f\<close>, raises. The world records what has happened so far:
  the effects in order, what was printed, and how many processes and removals there were.
\<close>

record world =
  trace :: "event list"
  stdout :: "pyval list list"
  npopen :: nat
  nremove :: nat

definition world0 :: world where
  "world0 = \<lparr>trace = [], stdout = [], npopen = 0, nremove = 0\<rparr>"

definition emit :: "event list \<Rightarrow> world \<Rightarrow> world" where
  "emit es w = w\<lparr>trace := trace w @ es\<rparr>"

definition print :: "pyval list \<Rightarrow> world \<Rightarrow> world" where
  "print args w = w\<lparr>stdout := stdout w @ [args]\<rparr>"

definition os_popen :: "host \<Rightarrow> string \<Rightarrow> world \<Rightarrow> string list \<times> world" where
  "os_popen h cmd w =
     (popen_readlines h cmd (npopen w), emit [Popen cmd] (w\<lparr>npopen := Suc (npopen w)\<rparr>))"

text \<open>\<open>time.sleep\<close> raises \<open>ValueError\<close> on a negative length.\<close>

definition time_sleep :: "real \<Rightarrow> world \<Rightarrow> outcome \<times> world" where
  "time_sleep t w = (if t < 0 then (Raised ValueError, w) else (Returned, emit [Sleep t] w))"

definition os_remove :: "host \<Rightarrow> string \<Rightarrow> world \<Rightarrow> outcome \<times> world" where
  "os_remove h f w =
     (let w' = w\<lparr>nremove := Suc (nremove w)\<rparr>
      in if remove_fails h f (nremove w) then (Raised OSError, w')
         else (Returned, emit [Remove f] w'))"

text \<open>
  \<open>str.find\<close>: the lowest index at which \<open>sub\<close> occurs in \<open>s\<close>, or \<open>-1\<close>.
\<close>

fun str_find :: "string \<Rightarrow> string \<Rightarrow> int" where
  "str_find [] sub = (if sub = [] then 0 else - 1)"
| "str_find (c # cs) sub =
     (if prefix sub (c # cs) then 0
      else (let r = str_find cs sub in if r < 0 then - 1 else r + 1))"

text \<open>\<open>s.split("/")[-1]\<close>: what follows the last slash, the whole string when there is none.\<close>

definition split_last :: "string \<Rightarrow> string" where
  "split_last s = rev (takeWhile (\<lambda>c. c \<noteq> CHR ''/'') (rev s))"

section \<open>The class \<open>SubmitSGE\<close>\<close>

record config =
  queue_name :: string
  extra_options :: string
  maximum_jobs :: int
  queue_update :: real
  verbose :: bool

text \<open>
  The constructor's defaults. The source compares strings with \<open>is not ""\<close>; CPython keeps
  one empty string object, so the comparison is modelled as inequality with the empty
  string.
\<close>

definition default_config :: config where
  "default_config =
     \<lparr>queue_name = '''', extra_options = '''', maximum_jobs = 100, queue_update = 60,
      verbose = True\<rparr>"

subsection \<open>\<open>get_jobs_in_queue\<close>\<close>

definition get_jobs_in_queue_stat :: "config \<Rightarrow> string \<Rightarrow> string" where
  "get_jobs_in_queue_stat cfg username =
     (let stat = ''qstat -u '' @ username
      in if queue_name cfg \<noteq> '''' then stat @ ''-q '' @ queue_name cfg else stat)"

definition get_jobs_in_queue :: "config \<Rightarrow> host \<Rightarrow> world \<Rightarrow> int \<times> world" where
  "get_jobs_in_queue cfg h w =
     (let username = getuser h;
          stat = get_jobs_in_queue_stat cfg username;
          (lines, w1) = os_popen h stat w;
          job_number = int (length lines)
      in if job_number > 0 then (job_number - 2, w1) else (job_number, w1))"

subsection \<open>\<open>get_jobs_in_queue_name\<close>\<close>

definition get_jobs_in_queue_name_stat :: "config \<Rightarrow> string \<Rightarrow> string" where
  "get_jobs_in_queue_name_stat cfg username =
     (let stat = ''qstat -u '' @ username @ '' -xml ''
      in if queue_name cfg \<noteq> '''' then stat @ ''-q '' @ queue_name cfg else stat)"

text \<open>The \<open>for\<close> loop over the lines read, with the counter as accumulator.\<close>

fun count_fragment :: "string \<Rightarrow> string list \<Rightarrow> int \<Rightarrow> int" where
  "count_fragment name_fragment [] job_number = job_number"
| "count_fragment name_fragment (i # rest) job_number =
     count_fragment name_fragment rest
       (if str_find i name_fragment > - 1 then job_number + 1 else job_number)"

definition get_jobs_in_queue_name :: "config \<Rightarrow> host \<Rightarrow> string \<Rightarrow> world \<Rightarrow> int \<times> world" where
  "get_jobs_in_queue_name cfg h name_fragment w =
     (let username = getuser h;
          stat = get_jobs_in_queue_name_stat cfg username;
          (lines, w1) = os_popen h stat w;
          job_number = count_fragment name_fragment lines 0;
          w2 = (if verbose cfg
                then print [PInt job_number, PStr ''Jobs containing string'',
                            PStr name_fragment, PStr ''in queue''] w1
                else w1)
      in (job_number, w2))"

subsection \<open>\<open>submit_job\<close>\<close>

text \<open>
  \<open>os.environ.get\<close> gives \<open>None\<close> for a variable that is not set; concatenating \<open>None\<close> to
  a string raises \<open>TypeError\<close>, and \<open>None.split\<close> raises \<open>AttributeError\<close> (\<open>None is not ""\<close>
  holds). The model follows the source write by write, so a raise leaves the script half
  written and open. Opening the script in the working directory and starting \<open>qsub\<close> are
  taken to succeed; the status \<open>subprocess.call\<close> returns is discarded by the source.
\<close>

definition script_filename :: "string \<Rightarrow> string" where
  "script_filename job_name = ''./submit_'' @ job_name @ ''.sh''"

definition script_diagnostics :: "string \<Rightarrow> event list" where
  \<open>script_diagnostics command =
     [Write ''echo -------------------------------------\<newline>'',
      Write ''echo "USER    : $USER" \<newline>'',
      Write ''echo "JOB_ID  : $JOB_ID" \<newline>'',
      Write ''echo "JOB_NAME: $JOB_NAME" \<newline>'',
      Write ''echo "HOSTNAME: $HOSTNAME" \<newline>'',
      Write ''echo -------------------------------------\<newline>'',
      Write ''ulimit -c 1\<newline>'',
      Write command,
      Close]\<close>

definition qsub_call :: "config \<Rightarrow> string \<Rightarrow> string list" where
  "qsub_call cfg job_name =
     [''qsub'', extra_options cfg, ''-notify'', ''-N'', job_name, script_filename job_name]"

definition submit_job :: "config \<Rightarrow> host \<Rightarrow> string \<Rightarrow> string \<Rightarrow> world \<Rightarrow> outcome \<times> world" where
  "submit_job cfg h command job_name w =
     (let filename = script_filename job_name;
          libpath = environ h ''LD_LIBRARY_PATH'';
          path = environ h ''PATH'';
          pypath = environ h ''PYTHONPATH'';
          conda_environment = environ h ''CONDA_PREFIX'';
          w1 = emit [Open filename, Write ''#/bin/sh \<newline> \<newline>''] w
      in case libpath of None \<Rightarrow> (Raised TypeError, w1) | Some libpath \<Rightarrow>
         (let w2 = emit [Write (''export LD_LIBRARY_PATH='' @ libpath @ '' \<newline>'')] w1
          in case path of None \<Rightarrow> (Raised TypeError, w2) | Some path \<Rightarrow>
          (let w3 = emit [Write (''export PATH='' @ path @ '' \<newline>'')] w2
           in case pypath of None \<Rightarrow> (Raised TypeError, w3) | Some pypath \<Rightarrow>
           (let w4 = emit [Write (''export PYTHONPATH='' @ pypath @ '' \<newline>'')] w3
            in case conda_environment of None \<Rightarrow> (Raised AttributeError, w4)
               | Some conda \<Rightarrow>
               (let w5 = (if conda \<noteq> ''''
                          then emit [Write (''source activate'' @ split_last conda @ '' \<newline>'')] w4
                          else w4);
                    w6 = emit (script_diagnostics command) w5;
                    w7 = emit [Call (qsub_call cfg job_name)] w6;
                    w8 = emit [Sleep 1] w7
                in os_remove h filename w8)))))"

subsection \<open>\<open>submit_job_when_ready\<close>\<close>

text \<open>
  The \<open>while True\<close> loop, run for at most \<open>n\<close> iterations: each iteration asks for the
  number of jobs once, and either submits and leaves the loop or sleeps. When the \<open>n\<close>
  iterations are used up the call is still polling, which is the outcome \<open>Blocked\<close>
  together with the world reached so far.
\<close>

fun admission_loop ::
  "nat \<Rightarrow> config \<Rightarrow> host \<Rightarrow> string \<Rightarrow> string \<Rightarrow> world \<Rightarrow> outcome \<times> world" where
  "admission_loop 0 cfg h command job_name w = (Blocked, w)"
| "admission_loop (Suc n) cfg h command job_name w =
     (let (job_number, w1) = get_jobs_in_queue cfg h w
      in if job_number < maximum_jobs cfg
         then (let w2 = (if verbose cfg
                         then print [PStr ''Submitting Job'', PStr job_name] w1 else w1)
               in submit_job cfg h command job_name w2)
         else (case time_sleep (queue_update cfg) w1 of
                 (Returned, w2) \<Rightarrow> admission_loop n cfg h command job_name w2
               | r \<Rightarrow> r))"

definition submit_job_when_ready ::
  "nat \<Rightarrow> config \<Rightarrow> host \<Rightarrow> string \<Rightarrow> string \<Rightarrow> world \<Rightarrow> outcome \<times> world" where
  "submit_job_when_ready n cfg h command job_name w =
     (let (job_number, w1) = get_jobs_in_queue cfg h w;
          w2 = (if verbose cfg
                then print [PInt job_number, PStr ''out of'', PInt (maximum_jobs cfg),
                            PStr ''allowed jobs currently submitted''] w1
                else w1)
      in admission_loop n cfg h command job_name w2)"

subsection \<open>\<open>submit_job_list\<close>\<close>

text \<open>
  The \<open>for\<close> loop over the commands stops at the first call that does not return. The
  drain loop evaluates its condition at most \<open>n\<close> times. The bound \<open>n\<close> is the same for
  every loop the call runs: each command's polling loop and the drain loop may take \<open>n\<close>
  iterations of their own.
\<close>

fun submit_commands ::
  "nat \<Rightarrow> config \<Rightarrow> host \<Rightarrow> string list \<Rightarrow> string \<Rightarrow> world \<Rightarrow> outcome \<times> world" where
  "submit_commands n cfg h [] job_name w = (Returned, w)"
| "submit_commands n cfg h (command # rest) job_name w =
     (case submit_job_when_ready n cfg h command job_name w of
        (Returned, w1) \<Rightarrow> submit_commands n cfg h rest job_name w1
      | r \<Rightarrow> r)"

fun drain_loop :: "nat \<Rightarrow> config \<Rightarrow> host \<Rightarrow> string \<Rightarrow> world \<Rightarrow> outcome \<times> world" where
  "drain_loop 0 cfg h job_name w = (Blocked, w)"
| "drain_loop (Suc n) cfg h job_name w =
     (let (job_number, w1) = get_jobs_in_queue_name cfg h job_name w
      in if job_number > 0
         then (case time_sleep (queue_update cfg) w1 of
                 (Returned, w2) \<Rightarrow> drain_loop n cfg h job_name w2
               | r \<Rightarrow> r)
         else (Returned, w1))"

definition submit_job_list ::
  "nat \<Rightarrow> config \<Rightarrow> host \<Rightarrow> string list \<Rightarrow> string \<Rightarrow> bool \<Rightarrow> world \<Rightarrow> outcome \<times> world" where
  "submit_job_list n cfg h command_list job_name wait_for_completion w =
     (case submit_commands n cfg h command_list job_name w of
        (Returned, w1) \<Rightarrow>
          (if wait_for_completion then drain_loop n cfg h job_name w1 else (Returned, w1))
      | r \<Rightarrow> r)"

section \<open>What the properties speak of\<close>

subsection \<open>Counts\<close>

text \<open>
  The count a query yields depends on the world only through the number of processes
  opened before it: \<open>total_count cfg h i\<close> is what \<open>get_jobs_in_queue\<close> returns when
  its query is the \<open>i\<close>-th process of the run, \<open>fragment_count cfg h f i\<close> what
  \<open>get_jobs_in_queue_name\<close> returns for the fragment \<open>f\<close>.
\<close>

definition total_count :: "config \<Rightarrow> host \<Rightarrow> nat \<Rightarrow> int" where
  "total_count cfg h i = fst (get_jobs_in_queue cfg h (world0\<lparr>npopen := i\<rparr>))"

definition fragment_count :: "config \<Rightarrow> host \<Rightarrow> string \<Rightarrow> nat \<Rightarrow> int" where
  "fragment_count cfg h name_fragment i =
     fst (get_jobs_in_queue_name cfg h name_fragment (world0\<lparr>npopen := i\<rparr>))"

subsection \<open>What a submission does\<close>

text \<open>
  \<open>env_complete\<close> says that the four variables \<open>submit_job\<close> reads are set. Then the call
  gets as far as \<open>qsub\<close>, and \<open>script_events\<close> lists what it does before it removes the
  script (the list is about such hosts only: it reads the variables with \<open>the\<close>).
\<close>

definition env_complete :: "host \<Rightarrow> bool" where
  "env_complete h =
     (environ h ''LD_LIBRARY_PATH'' \<noteq> None \<and> environ h ''PATH'' \<noteq> None \<and>
      environ h ''PYTHONPATH'' \<noteq> None \<and> environ h ''CONDA_PREFIX'' \<noteq> None)"

definition script_events :: "config \<Rightarrow> host \<Rightarrow> string \<Rightarrow> string \<Rightarrow> event list" where
  "script_events cfg h command job_name =
     [Open (script_filename job_name),
      Write ''#/bin/sh \<newline> \<newline>'',
      Write (''export LD_LIBRARY_PATH='' @ the (environ h ''LD_LIBRARY_PATH'') @ '' \<newline>''),
      Write (''export PATH='' @ the (environ h ''PATH'') @ '' \<newline>''),
      Write (''export PYTHONPATH='' @ the (environ h ''PYTHONPATH'') @ '' \<newline>'')]
     @ (if the (environ h ''CONDA_PREFIX'') \<noteq> ''''
        then [Write (''source activate'' @ split_last (the (environ h ''CONDA_PREFIX''))
                     @ '' \<newline>'')]
        else [])
     @ script_diagnostics command
     @ [Call (qsub_call cfg job_name), Sleep 1]"

subsection \<open>Reading a trace\<close>

text \<open>
  \<open>calls\<close> are the argument vectors handed to \<open>subprocess.call\<close>, in order. \<open>submissions\<close>
  pairs each of them with the text the script holds at that moment: \<open>open(..., 'w')\<close>
  empties the script and each write appends to it. \<open>written\<close> is all the text written, and
  \<open>script_text\<close> the text of the script of one command. Queries and sleeps are the events of
  polling (\<open>is_poll\<close>).
\<close>

fun calls :: "event list \<Rightarrow> string list list" where
  "calls [] = []"
| "calls (Call argv # es) = argv # calls es"
| "calls (e # es) = calls es"

fun is_poll :: "event \<Rightarrow> bool" where
  "is_poll (Popen cmd) = True"
| "is_poll (Sleep t) = True"
| "is_poll e = False"





subsection \<open>Reading a command line and a listing\<close>

text \<open>
  \<open>shell_words\<close> splits a command line at blanks, as the shell that \<open>os.popen\<close> starts does
  with a line that has no quoting: the words are the program and its arguments.
\<close>

fun shell_words_from :: "string \<Rightarrow> string \<Rightarrow> string list" where
  "shell_words_from cur [] = (if cur = [] then [] else [cur])"
| "shell_words_from cur (c # cs) =
     (if c = CHR '' '' then (if cur = [] then [] else [cur]) @ shell_words_from [] cs
      else shell_words_from (cur @ [c]) cs)"

definition shell_words :: "string \<Rightarrow> string list" where
  "shell_words s = shell_words_from [] s"

text \<open>
  In the XML listing of \<open>qstat\<close> the name of a job stands on a line of its own, indented,
  between \<open><JB_name>\<close> and \<open></JB_name>\<close>. \<open>jb_name\<close> reads the name off such a line,
  \<open>names_job f l\<close> says that line \<open>l\<close> names a job whose name contains \<open>f\<close>, and
  \<open>named_jobs f ls\<close> is the number of such lines of a listing.
\<close>

definition jb_name :: "string \<Rightarrow> string option" where
  "jb_name l =
     (let s = dropWhile (\<lambda>c. c = CHR '' '') l
      in if prefix ''<JB_name>'' s
         then Some (takeWhile (\<lambda>c. c \<noteq> CHR ''<'') (drop (length ''<JB_name>'') s))
         else None)"

definition names_job :: "string \<Rightarrow> string \<Rightarrow> bool" where
  "names_job name_fragment l =
     (case jb_name l of None \<Rightarrow> False | Some name \<Rightarrow> sublist name_fragment name)"

definition named_jobs :: "string \<Rightarrow> string list \<Rightarrow> nat" where
  "named_jobs name_fragment ls = length (filter (names_job name_fragment) ls)"

subsection \<open>Concrete hosts and configurations\<close>

text \<open>
  \<open>host_idle\<close> has every variable set, an empty queue and removable files; the other
  hosts differ from it in what \<open>qstat\<close> prints or in whether removal fails:
  \<open>host_one_row\<close> always prints a single line; \<open>host_late\<close> prints seven rows (five jobs)
  to the second and third query of a run and nothing otherwise; \<open>host_draining\<close> lists two
  jobs named \<open>batch\<close> to the third query, one to the fourth and none otherwise;
  \<open>host_two_names\<close> always lists the jobs \<open>job_42\<close> and \<open>myjob_overflow\<close>; \<open>host_xml\<close>
  always prints \<open>xml_listing\<close>, the listing of one running job named \<open>sim_run\<close>.
\<close>

definition host_idle :: host where
  "host_idle =
     \<lparr>getuser = ''alice'',
      environ = [''LD_LIBRARY_PATH'' \<mapsto> ''/usr/lib'', ''PATH'' \<mapsto> ''/usr/bin'',
                 ''PYTHONPATH'' \<mapsto> ''/opt/py'', ''CONDA_PREFIX'' \<mapsto> ''/opt/conda/envs/sge''],
      popen_readlines = (\<lambda>cmd i. []),
      remove_fails = (\<lambda>f i. False)\<rparr>"

definition host_one_row :: host where
  "host_one_row = host_idle\<lparr>popen_readlines := (\<lambda>cmd i. [''row\<newline>''])\<rparr>"

definition host_late :: host where
  "host_late =
     host_idle\<lparr>popen_readlines :=
       (\<lambda>cmd i. if i = 1 \<or> i = 2 then replicate 7 ''row\<newline>'' else [])\<rparr>"

definition host_undeletable :: host where
  "host_undeletable = host_idle\<lparr>remove_fails := (\<lambda>f i. True)\<rparr>"

definition host_draining :: host where
  "host_draining =
     host_idle\<lparr>popen_readlines :=
       (\<lambda>cmd i. if i = 2 then [''<JB_name>batch</JB_name>\<newline>'',
                                ''<JB_name>batch</JB_name>\<newline>'']
                  else if i = 3 then [''<JB_name>batch</JB_name>\<newline>'']
                  else [])\<rparr>"

definition host_two_names :: host where
  "host_two_names =
     host_idle\<lparr>popen_readlines :=
       (\<lambda>cmd i. [''<JB_name>job_42</JB_name>\<newline>'',
                  ''<JB_name>myjob_overflow</JB_name>\<newline>''])\<rparr>"

definition xml_listing :: "string list" where
  \<open>xml_listing =
     [''<?xml version="1.0"?>\<newline>'',
      ''<job_info>\<newline>'',
      ''  <queue_info>\<newline>'',
      ''    <job_list state="running">\<newline>'',
      ''      <JB_job_number>4711</JB_job_number>\<newline>'',
      ''      <JB_name>sim_run</JB_name>\<newline>'',
      ''      <JB_owner>alice</JB_owner>\<newline>'',
      ''      <state>r</state>\<newline>'',
      ''    </job_list>\<newline>'',
      ''  </queue_info>\<newline>'',
      ''  <job_info>\<newline>'',
      ''  </job_info>\<newline>'',
      ''</job_info>\<newline>'']\<close>

definition host_xml :: host where
  "host_xml = host_idle\<lparr>popen_readlines := (\<lambda>cmd i. xml_listing)\<rparr>"

definition config_zero :: config where
  "config_zero = default_config\<lparr>maximum_jobs := 0\<rparr>"

definition config_one :: config where
  "config_one = default_config\<lparr>maximum_jobs := 1, verbose := False\<rparr>"

definition config_long :: config where
  "config_long = default_config\<lparr>queue_name := ''long''\<rparr>"

section \<open>Auxiliary facts\<close>

text \<open>
  Updates of different fields of the world commute; they are brought into one order.
\<close>

lemma world_update_order [simp]:
  "w\<lparr>stdout := s, trace := t\<rparr> = w\<lparr>trace := t, stdout := s\<rparr>"
  "w\<lparr>npopen := p, trace := t\<rparr> = w\<lparr>trace := t, npopen := p\<rparr>"
  "w\<lparr>nremove := r, trace := t\<rparr> = w\<lparr>trace := t, nremove := r\<rparr>"
  "w\<lparr>npopen := p, stdout := s\<rparr> = w\<lparr>stdout := s, npopen := p\<rparr>"
  "w\<lparr>nremove := r, stdout := s\<rparr> = w\<lparr>stdout := s, nremove := r\<rparr>"
  "w\<lparr>nremove := r, npopen := p\<rparr> = w\<lparr>npopen := p, nremove := r\<rparr>"
  for w :: world
  by simp_all

text \<open>
  \<open>str_find\<close> finds the fragment exactly when the fragment is a contiguous part of the
  line, so the loop of \<open>get_jobs_in_queue_name\<close> counts the lines that contain it.
\<close>

lemma str_find_lower: "- 1 \<le> str_find s sub"
  by (induction s) (auto simp: Let_def)

lemma str_find_sublist: "(str_find s sub > - 1) = sublist sub s"
proof (induction s)
  case Nil
  then show ?case by simp
next
  case (Cons c cs)
  have "- 1 \<le> str_find cs sub" by (rule str_find_lower)
  with Cons show ?case
    by (auto simp: Let_def sublist_Cons_right)
qed

lemma count_fragment_filter:
  "count_fragment f ls n = n + int (length (filter (sublist f) ls))"
  by (induction ls arbitrary: n) (simp_all add: str_find_sublist)

lemma filter_split_length:
  assumes "\<And>x. Q x \<Longrightarrow> P x"
  shows "length (filter P xs) = length (filter Q xs) + length (filter (\<lambda>x. P x \<and> \<not> Q x) xs)"
  using assms by (induction xs) auto

text \<open>
  What the observers see of a trace that grows: polling leaves no call and no submission,
  and opening a script starts its text afresh.
\<close>

lemma calls_append: "calls (a @ b) = calls a @ calls b"
  by (induction a rule: calls.induct) simp_all

lemma calls_polling: "list_all is_poll es \<Longrightarrow> calls es = []"
  by (induction es rule: calls.induct) simp_all

lemma calls_polls [simp]: "calls (concat (replicate k [Popen q, Sleep t])) = []"
  by (induction k) simp_all





lemma env_complete_host_late: "env_complete host_late"
  by (simp add: env_complete_def host_late_def host_idle_def)

section \<open>\<open>get_jobs_in_queue\<close>\<close>

text \<open>
  One query: one more process, one more event, and a count that depends on the lines
  read alone. On every listing that does not have exactly one row the count is the number
  of rows less the two header rows, and 0 at least.
\<close>

lemma get_jobs_in_queue_world:
  "snd (get_jobs_in_queue cfg h w) =
     w\<lparr>trace := trace w @ [Popen (get_jobs_in_queue_stat cfg (getuser h))],
       npopen := Suc (npopen w)\<rparr>"
  by (simp add: get_jobs_in_queue_def os_popen_def emit_def Let_def)

lemma get_jobs_in_queue_count:
  "fst (get_jobs_in_queue cfg h w) = total_count cfg h (npopen w)"
  by (simp add: total_count_def get_jobs_in_queue_def os_popen_def emit_def Let_def world0_def)

lemma get_jobs_in_queue_eq:
  "get_jobs_in_queue cfg h w =
     (total_count cfg h (npopen w),
      w\<lparr>trace := trace w @ [Popen (get_jobs_in_queue_stat cfg (getuser h))],
        npopen := Suc (npopen w)\<rparr>)"
  by (simp add: prod_eq_iff get_jobs_in_queue_world get_jobs_in_queue_count)

lemma total_count_eq:
  "total_count cfg h i =
     (let n = int (length (popen_readlines h (get_jobs_in_queue_stat cfg (getuser h)) i))
      in if n > 0 then n - 2 else n)"
  by (simp add: total_count_def get_jobs_in_queue_def os_popen_def world0_def Let_def)

lemma total_count_floor:
  assumes "length (popen_readlines h (get_jobs_in_queue_stat cfg (getuser h)) i) \<noteq> 1"
  shows "total_count cfg h i =
           max 0 (int (length (popen_readlines h (get_jobs_in_queue_stat cfg (getuser h)) i)) - 2)"
proof -
  define n where "n = length (popen_readlines h (get_jobs_in_queue_stat cfg (getuser h)) i)"
  from assms have "n = 0 \<or> 2 \<le> n"
    unfolding n_def by arith
  then have "(let k = int n in if k > 0 then k - 2 else k) = max 0 (int n - 2)"
    by (auto simp: Let_def)
  then show ?thesis
    by (simp add: total_count_eq n_def)
qed

lemma get_jobs_in_queue_floor:
  assumes "length (popen_readlines h (get_jobs_in_queue_stat cfg (getuser h)) (npopen w)) \<noteq> 1"
  shows "fst (get_jobs_in_queue cfg h w) =
           max 0 (int (length (popen_readlines h (get_jobs_in_queue_stat cfg (getuser h))
                                 (npopen w))) - 2)"
  using assms by (simp add: get_jobs_in_queue_count total_count_floor)


lemma total_count_host_late:
  "total_count config_one host_late i = (if i = 1 \<or> i = 2 then 5 else 0)"
  by (simp add: total_count_def get_jobs_in_queue_def os_popen_def host_late_def host_idle_def
      world0_def)

lemma total_count_host_one_row: "total_count cfg host_one_row i = - 1"
  by (simp add: total_count_def get_jobs_in_queue_def os_popen_def host_one_row_def
      host_idle_def world0_def)

lemma total_count_host_draining: "total_count default_config host_draining i < 100"
  by (simp add: total_count_def get_jobs_in_queue_def os_popen_def host_draining_def
      host_idle_def world0_def)

text \<open>
  C2: the claim says that a listing of no row or of one row counts as 0 jobs and that the
  count is never negative. On a listing of exactly one row \<open>get_jobs_in_queue\<close> returns
  \<open>-1\<close>: the guard \<open>job_number > 0\<close> lets the subtraction of the two header rows through.
  On the empty listing it returns 0.
\<close>

theorem C2_single_row_listing:
  "popen_readlines host_one_row (get_jobs_in_queue_stat default_config (getuser host_one_row))
     (npopen world0) = [''row\<newline>'']
   \<and> fst (get_jobs_in_queue default_config host_one_row world0) = - 1
   \<and> fst (get_jobs_in_queue default_config host_idle world0) = 0"
  by (simp add: get_jobs_in_queue_def os_popen_def host_one_row_def host_idle_def world0_def)

text \<open>
  C8: the claim says that with a queue name the query carries the user option
  and a separate queue option. \<open>get_jobs_in_queue\<close> appends \<open>"-q "\<close> to the user name
  without a blank, so for user \<open>alice\<close> and queue \<open>long\<close> it asks for the jobs of user
  \<open>alice-q\<close> and no word of the command is \<open>-q\<close>; \<open>get_jobs_in_queue_name\<close>, whose
  command ends in a blank before the option, gets it right.
\<close>

theorem C8_queue_option_glued:
  "trace (snd (get_jobs_in_queue config_long host_idle world0)) = [Popen ''qstat -u alice-q long'']
   \<and> shell_words ''qstat -u alice-q long'' = [''qstat'', ''-u'', ''alice-q'', ''long'']
   \<and> shell_words (get_jobs_in_queue_name_stat config_long ''alice'')
       = [''qstat'', ''-u'', ''alice'', ''-xml'', ''-q'', ''long'']"
  by (simp add: get_jobs_in_queue_world get_jobs_in_queue_stat_def get_jobs_in_queue_name_stat_def
      config_long_def default_config_def host_idle_def world0_def shell_words_def)

section \<open>\<open>get_jobs_in_queue_name\<close>\<close>

lemma get_jobs_in_queue_name_count:
  "fst (get_jobs_in_queue_name cfg h f w) = fragment_count cfg h f (npopen w)"
  by (simp add: fragment_count_def get_jobs_in_queue_name_def os_popen_def emit_def Let_def
      world0_def)

lemma get_jobs_in_queue_name_world:
  "trace (snd (get_jobs_in_queue_name cfg h f w)) =
     trace w @ [Popen (get_jobs_in_queue_name_stat cfg (getuser h))]"
  "npopen (snd (get_jobs_in_queue_name cfg h f w)) = Suc (npopen w)"
  "nremove (snd (get_jobs_in_queue_name cfg h f w)) = nremove w"
  by (simp_all add: get_jobs_in_queue_name_def os_popen_def emit_def print_def Let_def)

lemma get_jobs_in_queue_name_eq:
  "get_jobs_in_queue_name cfg h f w =
     (fragment_count cfg h f (npopen w), snd (get_jobs_in_queue_name cfg h f w))"
  by (simp add: prod_eq_iff get_jobs_in_queue_name_count)

lemma fragment_count_host_idle: "fragment_count cfg host_idle f i = 0"
  by (simp add: fragment_count_def get_jobs_in_queue_name_def os_popen_def host_idle_def
      world0_def Let_def)

lemma fragment_count_host_two_names:
  "fragment_count cfg host_two_names ''job'' i = 2"
  by (simp add: fragment_count_def get_jobs_in_queue_name_def os_popen_def host_two_names_def
      host_idle_def world0_def Let_def)

lemma fragment_count_host_draining:
  "fragment_count default_config host_draining ''batch'' i =
     (if i = 2 then 2 else if i = 3 then 1 else 0)"
  by (simp add: fragment_count_def get_jobs_in_queue_name_def os_popen_def host_draining_def
      host_idle_def world0_def Let_def)

text \<open>
  C6: \<open>get_jobs_in_queue_name\<close> returns the number of lines read that contain
  the fragment somewhere (\<open>sublist f l\<close>: \<open>l = ps @ f @ ss\<close> for some \<open>ps\<close>, \<open>ss\<close>). With
  the entries \<open>job_42\<close> and \<open>myjob_overflow\<close> listed, the fragment \<open>job\<close> counts both,
  while \<open>job_42\<close> counts one.
\<close>

theorem C6_substring_match:
  "fst (get_jobs_in_queue_name cfg h name_fragment w) =
     int (length (filter (sublist name_fragment)
       (popen_readlines h (get_jobs_in_queue_name_stat cfg (getuser h)) (npopen w))))
   \<and> fst (get_jobs_in_queue_name default_config host_two_names ''job'' world0) = 2
   \<and> fst (get_jobs_in_queue_name default_config host_two_names ''job_42'' world0) = 1"
proof (intro conjI)
  show "fst (get_jobs_in_queue_name cfg h name_fragment w) =
     int (length (filter (sublist name_fragment)
       (popen_readlines h (get_jobs_in_queue_name_stat cfg (getuser h)) (npopen w))))"
    by (simp add: get_jobs_in_queue_name_def os_popen_def Let_def count_fragment_filter)
  show "fst (get_jobs_in_queue_name default_config host_two_names ''job'' world0) = 2"
    by (simp add: get_jobs_in_queue_name_def os_popen_def Let_def host_two_names_def
        host_idle_def)
  show "fst (get_jobs_in_queue_name default_config host_two_names ''job_42'' world0) = 1"
    by (simp add: get_jobs_in_queue_name_def os_popen_def Let_def host_two_names_def
        host_idle_def)
qed

text \<open>
  A name read off a \<open>JB_name\<close> line is part of that line, so a line that names a
  matching job is among the lines counted.
\<close>

lemma jb_name_sublist:
  assumes "jb_name l = Some name"
  shows "sublist name l"
proof -
  let ?s = "dropWhile (\<lambda>c. c = CHR '' '') l"
  from assms have "name = takeWhile (\<lambda>c. c \<noteq> CHR ''<'') (drop (length ''<JB_name>'') ?s)"
    by (simp add: jb_name_def Let_def split: if_splits)
  then have "prefix name (drop (length ''<JB_name>'') ?s)"
    by (simp only: takeWhile_is_prefix)
  then have "sublist name (drop (length ''<JB_name>'') ?s)"
    by (rule prefix_imp_sublist)
  also have "sublist (drop (length ''<JB_name>'') ?s) ?s"
    by (rule suffix_imp_sublist) (rule suffix_drop)
  also have "sublist ?s l"
    by (rule suffix_imp_sublist) (rule suffix_dropWhile)
  finally show ?thesis .
qed

lemma names_job_sublist:
  assumes "names_job name_fragment l"
  shows "sublist name_fragment l"
proof -
  from assms obtain name where n: "jb_name l = Some name" and s: "sublist name_fragment name"
    by (auto simp: names_job_def split: option.splits)
  from s jb_name_sublist [OF n] show ?thesis
    by (rule sublist_order.order_trans)
qed

text \<open>
  C10: \<open>get_jobs_in_queue_name\<close> counts every line of the listing that contains the
  fragment. In the XML listing of \<open>qstat\<close> a job's name stands on its own line,
  \<open><JB_name>NAME</JB_name>\<close> (\<open>jb_name\<close> reads it); the result is the number of such lines
  whose name contains the fragment plus the number of other lines that contain it, markup
  included. In \<open>xml_listing\<close>, with one job named \<open>sim_run\<close>, the fragment \<open>job\<close> is in no
  job's name and is counted seven times; the fragment \<open>sim\<close> is counted once.
\<close>

theorem C10_counts_raw_lines:
  "fst (get_jobs_in_queue_name cfg h name_fragment w) =
     int (named_jobs name_fragment
            (popen_readlines h (get_jobs_in_queue_name_stat cfg (getuser h)) (npopen w)))
     + int (length (filter (\<lambda>l. sublist name_fragment l \<and> \<not> names_job name_fragment l)
            (popen_readlines h (get_jobs_in_queue_name_stat cfg (getuser h)) (npopen w))))
   \<and> named_jobs ''job'' xml_listing = 0
   \<and> fst (get_jobs_in_queue_name default_config host_xml ''job'' world0) = 7
   \<and> named_jobs ''sim'' xml_listing = 1
   \<and> fst (get_jobs_in_queue_name default_config host_xml ''sim'' world0) = 1"
proof (intro conjI)
  let ?ls = "popen_readlines h (get_jobs_in_queue_name_stat cfg (getuser h)) (npopen w)"
  have "fst (get_jobs_in_queue_name cfg h name_fragment w) =
          int (length (filter (sublist name_fragment) ?ls))"
    by (simp add: get_jobs_in_queue_name_def os_popen_def Let_def count_fragment_filter)
  also have "length (filter (sublist name_fragment) ?ls) =
          length (filter (names_job name_fragment) ?ls)
          + length (filter (\<lambda>l. sublist name_fragment l \<and> \<not> names_job name_fragment l) ?ls)"
    by (rule filter_split_length) (rule names_job_sublist)
  finally show "fst (get_jobs_in_queue_name cfg h name_fragment w) =
     int (named_jobs name_fragment ?ls)
     + int (length (filter (\<lambda>l. sublist name_fragment l \<and> \<not> names_job name_fragment l) ?ls))"
    by (simp add: named_jobs_def)
  show "named_jobs ''job'' xml_listing = 0"
    by (simp add: named_jobs_def names_job_def jb_name_def xml_listing_def sublist_code(3))
  show "fst (get_jobs_in_queue_name default_config host_xml ''job'' world0) = 7"
    by (simp add: get_jobs_in_queue_name_def os_popen_def Let_def host_xml_def host_idle_def
        xml_listing_def)
  show "named_jobs ''sim'' xml_listing = 1"
    by (simp add: named_jobs_def names_job_def jb_name_def xml_listing_def sublist_code(3))
  show "fst (get_jobs_in_queue_name default_config host_xml ''sim'' world0) = 1"
    by (simp add: get_jobs_in_queue_name_def os_popen_def Let_def host_xml_def host_idle_def
        xml_listing_def)
qed

section \<open>\<open>submit_job\<close>\<close>

text \<open>
  With the four variables set, \<open>submit_job\<close> does what \<open>script_events\<close> lists and
  then removes the script; it returns if the removal succeeds and raises \<open>OSError\<close> if
  not. It returns in no other case.
\<close>

lemma submit_job_returns:
  assumes "env_complete h" and "\<not> remove_fails h (script_filename job_name) (nremove w)"
  shows "submit_job cfg h command job_name w =
     (Returned, w\<lparr>trace := trace w @ script_events cfg h command job_name
                                 @ [Remove (script_filename job_name)],
                  nremove := Suc (nremove w)\<rparr>)"
  using assms
  by (auto simp: env_complete_def submit_job_def script_events_def os_remove_def emit_def Let_def)

lemma submit_job_removal_raises:
  assumes "env_complete h" and "remove_fails h (script_filename job_name) (nremove w)"
  shows "submit_job cfg h command job_name w =
     (Raised OSError, w\<lparr>trace := trace w @ script_events cfg h command job_name,
                  nremove := Suc (nremove w)\<rparr>)"
  using assms
  by (auto simp: env_complete_def submit_job_def script_events_def os_remove_def emit_def Let_def)


lemma calls_script_events:
  "calls (script_events cfg h command job_name) = [qsub_call cfg job_name]"
  by (simp add: script_events_def script_diagnostics_def calls_append)




text \<open>
  C7, counterexample: on a host where the script cannot be removed, \<open>submit_job\<close>
  raises \<open>OSError\<close>; the claim says the failure does not propagate.
\<close>

theorem C7_removal_failure_counterexample:
  "fst (submit_job default_config host_undeletable ''echo hi'' ''job'' world0) = Raised OSError"
proof -
  have "env_complete host_undeletable"
    by (simp add: env_complete_def host_undeletable_def host_idle_def)
  moreover have "remove_fails host_undeletable (script_filename ''job'') (nremove world0)"
    by (simp add: host_undeletable_def)
  ultimately show ?thesis
    by (simp add: submit_job_removal_raises)
qed

text \<open>
  C7, as amended: when the variables are set and the removal of the script fails,
  \<open>submit_job\<close> raises \<open>OSError\<close> to its caller; nothing is printed, and the job has been
  handed to \<open>qsub\<close> exactly once before.
\<close>

theorem C7_removal_failure_propagates:
  assumes "env_complete h" and "remove_fails h (script_filename job_name) (nremove w)"
  shows "fst (submit_job cfg h command job_name w) = Raised OSError
       \<and> stdout (snd (submit_job cfg h command job_name w)) = stdout w
       \<and> calls (trace (snd (submit_job cfg h command job_name w)))
           = calls (trace w) @ [qsub_call cfg job_name]"
  using assms
  by (simp add: submit_job_removal_raises calls_append calls_script_events)

theorem C7_removal_failure_propagates_witness:
  "fst (submit_job default_config host_undeletable ''echo hi'' ''job'' world0) = Raised OSError
   \<and> stdout (snd (submit_job default_config host_undeletable ''echo hi'' ''job'' world0)) = []
   \<and> calls (trace (snd (submit_job default_config host_undeletable ''echo hi'' ''job'' world0)))
       = [[''qsub'', '''', ''-notify'', ''-N'', ''job'', ''./submit_job.sh'']]"
proof -
  have e: "env_complete host_undeletable"
    by (simp add: env_complete_def host_undeletable_def host_idle_def)
  have r: "remove_fails host_undeletable (script_filename ''job'') (nremove world0)"
    by (simp add: host_undeletable_def)
  show ?thesis
    using C7_removal_failure_propagates [OF e r, of default_config "''echo hi''"]
    by (simp add: world0_def qsub_call_def script_filename_def default_config_def)
qed

section \<open>\<open>submit_job_when_ready\<close>\<close>

text \<open>
  The loop: \<open>k\<close> counts at or above the ceiling and then one below it lead to
  \<open>submit_job\<close> after \<open>k\<close> sleeps; counts that stay at or above the ceiling leave the
  loop polling. The call itself asks once more, before the loop.
\<close>

lemma admission_loop_admits:
  assumes "total_count cfg h (npopen w + k) < maximum_jobs cfg"
      and "\<forall>i<k. maximum_jobs cfg \<le> total_count cfg h (npopen w + i)"
      and "0 \<le> queue_update cfg" and "k < n"
  shows "admission_loop n cfg h command job_name w =
     submit_job cfg h command job_name
       ((if verbose cfg then print [PStr ''Submitting Job'', PStr job_name] else id)
        (w\<lparr>trace := trace w
               @ concat (replicate k [Popen (get_jobs_in_queue_stat cfg (getuser h)),
                                      Sleep (queue_update cfg)])
               @ [Popen (get_jobs_in_queue_stat cfg (getuser h))],
           npopen := npopen w + Suc k\<rparr>))"
  using assms
proof (induction k arbitrary: n w)
  case 0
  then obtain m where n: "n = Suc m" by (cases n) auto
  from 0 show ?case
    by (simp add: n get_jobs_in_queue_eq)
next
  case (Suc k)
  then obtain m where n: "n = Suc m" by (cases n) auto
  let ?w = "w\<lparr>trace := trace w @ [Popen (get_jobs_in_queue_stat cfg (getuser h)),
                                    Sleep (queue_update cfg)],
              npopen := Suc (npopen w)\<rparr>"
  from Suc.prems(2) have full: "maximum_jobs cfg \<le> total_count cfg h (npopen w)"
    by (metis add.right_neutral zero_less_Suc)
  have step: "admission_loop n cfg h command job_name w =
                admission_loop m cfg h command job_name ?w"
    using full Suc.prems(3)
    by (simp add: n get_jobs_in_queue_eq time_sleep_def emit_def)
  have "admission_loop m cfg h command job_name ?w = submit_job cfg h command job_name
       ((if verbose cfg then print [PStr ''Submitting Job'', PStr job_name] else id)
        (?w\<lparr>trace := trace ?w
               @ concat (replicate k [Popen (get_jobs_in_queue_stat cfg (getuser h)),
                                      Sleep (queue_update cfg)])
               @ [Popen (get_jobs_in_queue_stat cfg (getuser h))],
           npopen := npopen ?w + Suc k\<rparr>))"
  proof (rule Suc.IH)
    show "total_count cfg h (npopen ?w + k) < maximum_jobs cfg"
      using Suc.prems(1) by simp
    show "\<forall>i<k. maximum_jobs cfg \<le> total_count cfg h (npopen ?w + i)"
    proof (intro allI impI)
      fix i assume "i < k"
      then have "Suc i < Suc k" by simp
      with Suc.prems(2) have "maximum_jobs cfg \<le> total_count cfg h (npopen w + Suc i)"
        by blast
      then show "maximum_jobs cfg \<le> total_count cfg h (npopen ?w + i)" by simp
    qed
    show "0 \<le> queue_update cfg" by (rule Suc.prems(3))
    show "k < m" using Suc.prems(4) n by simp
  qed
  with step show ?case by simp
qed

lemma admission_loop_blocked:
  assumes "\<forall>i<n. maximum_jobs cfg \<le> total_count cfg h (npopen w + i)"
      and "0 \<le> queue_update cfg"
  shows "admission_loop n cfg h command job_name w =
     (Blocked,
      w\<lparr>trace := trace w
             @ concat (replicate n [Popen (get_jobs_in_queue_stat cfg (getuser h)),
                                    Sleep (queue_update cfg)]),
        npopen := npopen w + n\<rparr>)"
  using assms
proof (induction n arbitrary: w)
  case 0
  then show ?case by simp
next
  case (Suc n)
  let ?w = "w\<lparr>trace := trace w @ [Popen (get_jobs_in_queue_stat cfg (getuser h)),
                                    Sleep (queue_update cfg)],
              npopen := Suc (npopen w)\<rparr>"
  from Suc.prems(1) have full: "maximum_jobs cfg \<le> total_count cfg h (npopen w)"
    by (metis add.right_neutral zero_less_Suc)
  have step: "admission_loop (Suc n) cfg h command job_name w =
                admission_loop n cfg h command job_name ?w"
    using full Suc.prems(2)
    by (simp add: get_jobs_in_queue_eq time_sleep_def emit_def)
  have "\<forall>i<n. maximum_jobs cfg \<le> total_count cfg h (npopen ?w + i)"
  proof (intro allI impI)
    fix i assume "i < n"
    then have "Suc i < Suc n" by simp
    with Suc.prems(1) have "maximum_jobs cfg \<le> total_count cfg h (npopen w + Suc i)"
      by blast
    then show "maximum_jobs cfg \<le> total_count cfg h (npopen ?w + i)" by simp
  qed
  from Suc.IH [OF this Suc.prems(2)] show ?case
    unfolding step by simp
qed


lemma submit_job_when_ready_eq:
  "submit_job_when_ready n cfg h command job_name w =
     admission_loop n cfg h command job_name
       ((if verbose cfg
         then print [PInt (total_count cfg h (npopen w)), PStr ''out of'',
                     PInt (maximum_jobs cfg), PStr ''allowed jobs currently submitted'']
         else id)
        (w\<lparr>trace := trace w @ [Popen (get_jobs_in_queue_stat cfg (getuser h))],
           npopen := Suc (npopen w)\<rparr>))"
  by (simp add: submit_job_when_ready_def get_jobs_in_queue_eq)

lemma submit_job_when_ready_admits:
  assumes above: "\<forall>i<k. maximum_jobs cfg \<le> total_count cfg h (npopen w + 1 + i)"
      and below: "total_count cfg h (npopen w + 1 + k) < maximum_jobs cfg"
      and qu: "0 \<le> queue_update cfg"
      and env: "env_complete h"
      and rm: "\<not> remove_fails h (script_filename job_name) (nremove w)"
      and n: "k < n"
  shows "fst (submit_job_when_ready n cfg h command job_name w) = Returned"
    and "trace (snd (submit_job_when_ready n cfg h command job_name w)) =
           trace w @ [Popen (get_jobs_in_queue_stat cfg (getuser h))]
           @ concat (replicate k [Popen (get_jobs_in_queue_stat cfg (getuser h)),
                                  Sleep (queue_update cfg)])
           @ [Popen (get_jobs_in_queue_stat cfg (getuser h))]
           @ script_events cfg h command job_name @ [Remove (script_filename job_name)]"
    and "npopen (snd (submit_job_when_ready n cfg h command job_name w)) = npopen w + k + 2"
    and "nremove (snd (submit_job_when_ready n cfg h command job_name w)) = Suc (nremove w)"
proof -
  let ?q = "Popen (get_jobs_in_queue_stat cfg (getuser h))"
  define w1 where "w1 =
       (if verbose cfg
         then print [PInt (total_count cfg h (npopen w)), PStr ''out of'',
                     PInt (maximum_jobs cfg), PStr ''allowed jobs currently submitted'']
         else id)
        (w\<lparr>trace := trace w @ [?q], npopen := Suc (npopen w)\<rparr>)"
  have w1: "trace w1 = trace w @ [?q]" "npopen w1 = Suc (npopen w)" "nremove w1 = nremove w"
    by (simp_all add: w1_def print_def)
  define w2 where "w2 =
       (if verbose cfg then print [PStr ''Submitting Job'', PStr job_name] else id)
        (w1\<lparr>trace := trace w1 @ concat (replicate k [?q, Sleep (queue_update cfg)]) @ [?q],
            npopen := npopen w1 + Suc k\<rparr>)"
  have w2: "trace w2 = trace w @ [?q] @ concat (replicate k [?q, Sleep (queue_update cfg)]) @ [?q]"
    "npopen w2 = npopen w + k + 2" "nremove w2 = nremove w"
    by (simp_all add: w2_def w1 print_def)
  have "submit_job_when_ready n cfg h command job_name w =
          admission_loop n cfg h command job_name w1"
    unfolding w1_def by (rule submit_job_when_ready_eq)
  also have "\<dots> = submit_job cfg h command job_name w2"
    unfolding w2_def
  proof (rule admission_loop_admits)
    show "total_count cfg h (npopen w1 + k) < maximum_jobs cfg"
      using below by (simp add: w1)
    show "\<forall>i<k. maximum_jobs cfg \<le> total_count cfg h (npopen w1 + i)"
      using above by (simp add: w1)
  qed (rule qu, rule n)
  also have "\<dots> = (Returned, w2\<lparr>trace := trace w2 @ script_events cfg h command job_name
                                     @ [Remove (script_filename job_name)],
                               nremove := Suc (nremove w2)\<rparr>)"
    by (rule submit_job_returns) (use env rm w2 in simp_all)
  finally have R: "submit_job_when_ready n cfg h command job_name w =
      (Returned, w2\<lparr>trace := trace w2 @ script_events cfg h command job_name
                                     @ [Remove (script_filename job_name)],
                               nremove := Suc (nremove w2)\<rparr>)" .
  show "fst (submit_job_when_ready n cfg h command job_name w) = Returned"
    by (simp add: R)
  show "trace (snd (submit_job_when_ready n cfg h command job_name w)) =
           trace w @ [?q] @ concat (replicate k [?q, Sleep (queue_update cfg)]) @ [?q]
           @ script_events cfg h command job_name @ [Remove (script_filename job_name)]"
    by (simp add: R w2)
  show "npopen (snd (submit_job_when_ready n cfg h command job_name w)) = npopen w + k + 2"
    by (simp add: R w2)
  show "nremove (snd (submit_job_when_ready n cfg h command job_name w)) = Suc (nremove w)"
    by (simp add: R w2)
qed

lemma submit_job_when_ready_immediate:
  assumes below: "total_count cfg h (Suc (npopen w)) < maximum_jobs cfg"
      and env: "env_complete h"
      and rm: "\<not> remove_fails h (script_filename job_name) (nremove w)"
      and n: "0 < n"
  shows "fst (submit_job_when_ready n cfg h command job_name w) = Returned
       \<and> trace (snd (submit_job_when_ready n cfg h command job_name w)) =
           trace w @ [Popen (get_jobs_in_queue_stat cfg (getuser h)),
                      Popen (get_jobs_in_queue_stat cfg (getuser h))]
           @ script_events cfg h command job_name @ [Remove (script_filename job_name)]
       \<and> npopen (snd (submit_job_when_ready n cfg h command job_name w)) = npopen w + 2
       \<and> nremove (snd (submit_job_when_ready n cfg h command job_name w)) = Suc (nremove w)"
proof -
  let ?q = "Popen (get_jobs_in_queue_stat cfg (getuser h))"
  from n obtain m where m: "n = Suc m" by (cases n) auto
  define w1 where "w1 =
       (if verbose cfg
         then print [PInt (total_count cfg h (npopen w)), PStr ''out of'',
                     PInt (maximum_jobs cfg), PStr ''allowed jobs currently submitted'']
         else id)
        (w\<lparr>trace := trace w @ [?q], npopen := Suc (npopen w)\<rparr>)"
  have w1: "trace w1 = trace w @ [?q]" "npopen w1 = Suc (npopen w)" "nremove w1 = nremove w"
    by (simp_all add: w1_def print_def)
  define w2 where "w2 =
       (if verbose cfg then print [PStr ''Submitting Job'', PStr job_name] else id)
        (w1\<lparr>trace := trace w1 @ [?q], npopen := Suc (npopen w1)\<rparr>)"
  have w2: "trace w2 = trace w @ [?q, ?q]" "npopen w2 = npopen w + 2" "nremove w2 = nremove w"
    by (simp_all add: w2_def w1 print_def)
  have "submit_job_when_ready n cfg h command job_name w =
          admission_loop n cfg h command job_name w1"
    unfolding w1_def by (rule submit_job_when_ready_eq)
  also have "\<dots> = submit_job cfg h command job_name w2"
    using below by (simp add: m get_jobs_in_queue_eq w1 w2_def)
  also have "\<dots> = (Returned, w2\<lparr>trace := trace w2 @ script_events cfg h command job_name
                                     @ [Remove (script_filename job_name)],
                               nremove := Suc (nremove w2)\<rparr>)"
    by (rule submit_job_returns) (use env rm w2 in simp_all)
  finally show ?thesis
    by (simp add: w2)
qed

lemma submit_job_when_ready_blocked:
  assumes "\<forall>i<n. maximum_jobs cfg \<le> total_count cfg h (npopen w + 1 + i)"
      and "0 \<le> queue_update cfg"
  shows "fst (submit_job_when_ready n cfg h command job_name w) = Blocked"
    and "trace (snd (submit_job_when_ready n cfg h command job_name w)) =
           trace w @ [Popen (get_jobs_in_queue_stat cfg (getuser h))]
           @ concat (replicate n [Popen (get_jobs_in_queue_stat cfg (getuser h)),
                                  Sleep (queue_update cfg)])"
proof -
  let ?q = "Popen (get_jobs_in_queue_stat cfg (getuser h))"
  define w1 where "w1 =
       (if verbose cfg
         then print [PInt (total_count cfg h (npopen w)), PStr ''out of'',
                     PInt (maximum_jobs cfg), PStr ''allowed jobs currently submitted'']
         else id)
        (w\<lparr>trace := trace w @ [?q], npopen := Suc (npopen w)\<rparr>)"
  have w1: "trace w1 = trace w @ [?q]" "npopen w1 = Suc (npopen w)"
    by (simp_all add: w1_def print_def)
  have "submit_job_when_ready n cfg h command job_name w =
          admission_loop n cfg h command job_name w1"
    unfolding w1_def by (rule submit_job_when_ready_eq)
  also have "\<dots> = (Blocked, w1\<lparr>trace := trace w1 @ concat (replicate n [?q, Sleep (queue_update cfg)]),
                              npopen := npopen w1 + n\<rparr>)"
    by (rule admission_loop_blocked) (use assms w1 in simp_all)
  finally have R: "submit_job_when_ready n cfg h command job_name w =
     (Blocked, w1\<lparr>trace := trace w1 @ concat (replicate n [?q, Sleep (queue_update cfg)]),
                              npopen := npopen w1 + n\<rparr>)" .
  show "fst (submit_job_when_ready n cfg h command job_name w) = Blocked"
    by (simp add: R)
  show "trace (snd (submit_job_when_ready n cfg h command job_name w)) =
           trace w @ [?q] @ concat (replicate n [?q, Sleep (queue_update cfg)])"
    by (simp add: R w1)
qed


text \<open>
  C1, counterexample: the queue is below the ceiling of one job at the first count already
  (step 0), so the claim has the job submitted at once, without a sleep. The code throws
  that first count away (it is only printed), asks again, finds five jobs twice, sleeps
  twice and submits after the fourth query.
\<close>

theorem C1_initial_poll_counterexample:
  "total_count config_one host_late 0 < maximum_jobs config_one
   \<and> fst (submit_job_when_ready 3 config_one host_late ''cmd'' ''job'' world0) = Returned
   \<and> trace (snd (submit_job_when_ready 3 config_one host_late ''cmd'' ''job'' world0)) =
       [Popen ''qstat -u alice'',
        Popen ''qstat -u alice'', Sleep 60,
        Popen ''qstat -u alice'', Sleep 60,
        Popen ''qstat -u alice'']
       @ script_events config_one host_late ''cmd'' ''job'' @ [Remove ''./submit_job.sh'']"
proof -
  have mx: "maximum_jobs config_one = 1"
    by (simp add: config_one_def)
  have above: "\<forall>i<2. maximum_jobs config_one \<le> total_count config_one host_late (npopen world0 + 1 + i)"
    by (auto simp: total_count_host_late world0_def mx dest: less_2_cases)
  have below: "total_count config_one host_late (npopen world0 + 1 + 2) < maximum_jobs config_one"
    by (simp add: total_count_host_late world0_def mx)
  have qu: "0 \<le> queue_update config_one"
    by (simp add: config_one_def default_config_def)
  have rm: "\<not> remove_fails host_late (script_filename ''job'') (nremove world0)"
    by (simp add: host_late_def host_idle_def)
  have n: "(2::nat) < 3" by simp
  note r = submit_job_when_ready_admits [OF above below qu env_complete_host_late rm n]
  have two: "replicate 2 x = [x, x]" for x :: "event list"
    by (simp add: numeral_2_eq_2)
  show ?thesis
    by (simp add: r two total_count_host_late mx)
       (simp add: config_one_def default_config_def get_jobs_in_queue_stat_def host_late_def
          host_idle_def script_filename_def world0_def)
qed

text \<open>
  C1, as amended: \<open>submit_job_when_ready\<close> asks for the count once before its loop and does
  not decide on that answer. When, of the counts after that one, the first \<open>k\<close> are at or
  above \<open>maximum_jobs\<close> and the next is below it (and the interval is not negative, the
  variables \<open>submit_job\<close> reads are set and the script can be removed), the call returns
  after \<open>k + 2\<close> queries, \<open>k\<close> sleeps of \<open>queue_update\<close> seconds, one between two queries
  of the loop, and exactly one \<open>qsub\<close> call, made after the last query. Cut off after
  \<open>m \<le> k\<close> iterations of the loop, it is still polling and has submitted nothing.
\<close>

theorem C1_admission_after_initial_poll:
  assumes "\<forall>i<k. maximum_jobs cfg \<le> total_count cfg h (npopen w + 1 + i)"
      and "total_count cfg h (npopen w + 1 + k) < maximum_jobs cfg"
      and "0 \<le> queue_update cfg"
      and "env_complete h"
      and "\<not> remove_fails h (script_filename job_name) (nremove w)"
      and "k < n"
  shows "fst (submit_job_when_ready n cfg h command job_name w) = Returned
       \<and> trace (snd (submit_job_when_ready n cfg h command job_name w)) =
           trace w @ [Popen (get_jobs_in_queue_stat cfg (getuser h))]
           @ concat (replicate k [Popen (get_jobs_in_queue_stat cfg (getuser h)),
                                  Sleep (queue_update cfg)])
           @ [Popen (get_jobs_in_queue_stat cfg (getuser h))]
           @ script_events cfg h command job_name @ [Remove (script_filename job_name)]
       \<and> calls (trace (snd (submit_job_when_ready n cfg h command job_name w))) =
           calls (trace w) @ [qsub_call cfg job_name]
       \<and> (m \<le> k \<longrightarrow>
            fst (submit_job_when_ready m cfg h command job_name w) = Blocked
          \<and> calls (trace (snd (submit_job_when_ready m cfg h command job_name w))) =
              calls (trace w))"
proof -
  note r = submit_job_when_ready_admits [OF assms]
  have "fst (submit_job_when_ready m cfg h command job_name w) = Blocked
      \<and> calls (trace (snd (submit_job_when_ready m cfg h command job_name w))) = calls (trace w)"
    if "m \<le> k"
  proof -
    from that assms(1)
    have "\<forall>i<m. maximum_jobs cfg \<le> total_count cfg h (npopen w + 1 + i)" by simp
    from submit_job_when_ready_blocked [OF this assms(3)] show ?thesis
      by (simp add: calls_append)
  qed
  then show ?thesis
    by (simp add: r calls_append calls_script_events)
qed

theorem C1_admission_after_initial_poll_witness:
  "fst (submit_job_when_ready 3 config_one host_late ''cmd'' ''job'' world0) = Returned
   \<and> calls (trace (snd (submit_job_when_ready 3 config_one host_late ''cmd'' ''job'' world0))) =
       [[''qsub'', '''', ''-notify'', ''-N'', ''job'', ''./submit_job.sh'']]
   \<and> fst (submit_job_when_ready 2 config_one host_late ''cmd'' ''job'' world0) = Blocked
   \<and> calls (trace (snd (submit_job_when_ready 2 config_one host_late ''cmd'' ''job'' world0))) = []"
proof -
  have mx: "maximum_jobs config_one = 1"
    by (simp add: config_one_def)
  have above: "\<forall>i<2. maximum_jobs config_one \<le> total_count config_one host_late (npopen world0 + 1 + i)"
    by (auto simp: total_count_host_late world0_def mx dest: less_2_cases)
  have below: "total_count config_one host_late (npopen world0 + 1 + 2) < maximum_jobs config_one"
    by (simp add: total_count_host_late world0_def mx)
  have qu: "0 \<le> queue_update config_one"
    by (simp add: config_one_def default_config_def)
  have rm: "\<not> remove_fails host_late (script_filename ''job'') (nremove world0)"
    by (simp add: host_late_def host_idle_def)
  have n: "(2::nat) < 3" by simp
  from C1_admission_after_initial_poll
         [OF above below qu env_complete_host_late rm n, of "''cmd''" 2]
  show ?thesis
    by (simp add: calls_append calls_script_events world0_def)
       (simp add: qsub_call_def script_filename_def config_one_def default_config_def)
qed

text \<open>
  C3: the claim says that with \<open>maximum_jobs = 0\<close> no job is ever submitted. When \<open>qstat\<close>
  prints exactly one line, \<open>get_jobs_in_queue\<close> returns \<open>-1\<close> (see C2), which is below 0, and
  the job is submitted in the first iteration of the loop.
\<close>

theorem C3_zero_ceiling_submits:
  "fst (submit_job_when_ready 1 config_zero host_one_row ''cmd'' ''job'' world0) = Returned
   \<and> calls (trace (snd (submit_job_when_ready 1 config_zero host_one_row ''cmd'' ''job'' world0)))
       = [[''qsub'', '''', ''-notify'', ''-N'', ''job'', ''./submit_job.sh'']]"
proof -
  have mx: "maximum_jobs config_zero = 0"
    by (simp add: config_zero_def)
  have above: "\<forall>i<0. maximum_jobs config_zero \<le> total_count config_zero host_one_row (npopen world0 + 1 + i)"
    by simp
  have below: "total_count config_zero host_one_row (npopen world0 + 1 + 0) < maximum_jobs config_zero"
    by (simp add: total_count_host_one_row mx)
  have qu: "0 \<le> queue_update config_zero"
    by (simp add: config_zero_def default_config_def)
  have env: "env_complete host_one_row"
    by (simp add: env_complete_def host_one_row_def host_idle_def)
  have rm: "\<not> remove_fails host_one_row (script_filename ''job'') (nremove world0)"
    by (simp add: host_one_row_def host_idle_def)
  have n: "0 < Suc 0" by simp
  note r = submit_job_when_ready_admits [OF above below qu env rm n]
  show ?thesis
    by (simp add: r calls_append calls_script_events)
       (simp add: world0_def qsub_call_def script_filename_def config_zero_def default_config_def)
qed

text \<open>
  When no listing has exactly one row, no count is negative, and a ceiling of 0 (or
  less) keeps \<open>submit_job_when_ready\<close> polling without a submission, however many
  iterations it is given.
\<close>

lemma zero_ceiling_never_submits:
  assumes "maximum_jobs cfg \<le> 0"
      and "\<forall>i. length (popen_readlines h (get_jobs_in_queue_stat cfg (getuser h)) i) \<noteq> 1"
      and "0 \<le> queue_update cfg"
  shows "fst (submit_job_when_ready n cfg h command job_name w) = Blocked"
    and "calls (trace (snd (submit_job_when_ready n cfg h command job_name w))) = calls (trace w)"
proof -
  have "0 \<le> total_count cfg h i" for i
    using assms(2) by (simp add: total_count_floor)
  with assms(1) have "\<forall>i<n. maximum_jobs cfg \<le> total_count cfg h (npopen w + 1 + i)"
    by (auto intro: order_trans)
  from submit_job_when_ready_blocked [OF this assms(3)]
  show "fst (submit_job_when_ready n cfg h command job_name w) = Blocked"
    and "calls (trace (snd (submit_job_when_ready n cfg h command job_name w))) = calls (trace w)"
    by (simp_all add: calls_append)
qed

section \<open>\<open>submit_job_list\<close>\<close>

text \<open>
  The drain loop returns on the first count that is not positive and sleeps after every
  other; it never calls \<open>qsub\<close>. The loop over the commands goes on while the calls
  return.
\<close>

lemma drain_loop_returns:
  assumes "fragment_count cfg h job_name (npopen w) \<le> 0"
  shows "drain_loop (Suc n) cfg h job_name w =
           (Returned, snd (get_jobs_in_queue_name cfg h job_name w))"
  using assms
  by (subst drain_loop.simps, subst get_jobs_in_queue_name_eq) simp

lemma drain_loop_sleeps:
  assumes "0 < fragment_count cfg h job_name (npopen w)" and "0 \<le> queue_update cfg"
  shows "drain_loop (Suc n) cfg h job_name w =
           drain_loop n cfg h job_name
             (emit [Sleep (queue_update cfg)] (snd (get_jobs_in_queue_name cfg h job_name w)))"
  using assms
  by (subst drain_loop.simps, subst get_jobs_in_queue_name_eq) (simp add: time_sleep_def)

lemma drain_loop_drains:
  assumes "\<forall>i<k. 0 < fragment_count cfg h job_name (npopen w + i)"
      and "fragment_count cfg h job_name (npopen w + k) = 0"
      and "0 \<le> queue_update cfg" and "k < n"
  shows "fst (drain_loop n cfg h job_name w) = Returned
       \<and> trace (snd (drain_loop n cfg h job_name w)) =
           trace w
           @ concat (replicate k [Popen (get_jobs_in_queue_name_stat cfg (getuser h)),
                                  Sleep (queue_update cfg)])
           @ [Popen (get_jobs_in_queue_name_stat cfg (getuser h))]
       \<and> npopen (snd (drain_loop n cfg h job_name w)) = npopen w + Suc k
       \<and> nremove (snd (drain_loop n cfg h job_name w)) = nremove w"
  using assms
proof (induction k arbitrary: n w)
  case 0
  then obtain m where n: "n = Suc m" by (cases n) auto
  from 0 show ?case
    by (simp add: n drain_loop_returns get_jobs_in_queue_name_world del: drain_loop.simps)
next
  case (Suc k)
  then obtain m where n: "n = Suc m" by (cases n) auto
  let ?w = "emit [Sleep (queue_update cfg)] (snd (get_jobs_in_queue_name cfg h job_name w))"
  have w': "trace ?w = trace w @ [Popen (get_jobs_in_queue_name_stat cfg (getuser h)),
                                  Sleep (queue_update cfg)]"
      "npopen ?w = Suc (npopen w)" "nremove ?w = nremove w"
    by (simp_all add: emit_def get_jobs_in_queue_name_world)
  from Suc.prems(1) have "0 < fragment_count cfg h job_name (npopen w)"
    by (metis add.right_neutral zero_less_Suc)
  then have step: "drain_loop n cfg h job_name w = drain_loop m cfg h job_name ?w"
    unfolding n using Suc.prems(3) by (rule drain_loop_sleeps)
  have "\<forall>i<k. 0 < fragment_count cfg h job_name (npopen ?w + i)"
  proof (intro allI impI)
    fix i assume "i < k"
    then have "Suc i < Suc k" by simp
    with Suc.prems(1) have "0 < fragment_count cfg h job_name (npopen w + Suc i)"
      by blast
    then show "0 < fragment_count cfg h job_name (npopen ?w + i)" by (simp add: w')
  qed
  moreover have "fragment_count cfg h job_name (npopen ?w + k) = 0"
    using Suc.prems(2) by (simp add: w')
  moreover have "k < m" using Suc.prems(4) n by simp
  ultimately have "fst (drain_loop m cfg h job_name ?w) = Returned
       \<and> trace (snd (drain_loop m cfg h job_name ?w)) =
           trace ?w
           @ concat (replicate k [Popen (get_jobs_in_queue_name_stat cfg (getuser h)),
                                  Sleep (queue_update cfg)])
           @ [Popen (get_jobs_in_queue_name_stat cfg (getuser h))]
       \<and> npopen (snd (drain_loop m cfg h job_name ?w)) = npopen ?w + Suc k
       \<and> nremove (snd (drain_loop m cfg h job_name ?w)) = nremove ?w"
    using Suc.prems(3) by (intro Suc.IH)
  then show ?case
    unfolding step by (simp add: w')
qed

lemma drain_loop_blocked:
  assumes "\<forall>i<n. 0 < fragment_count cfg h job_name (npopen w + i)"
      and "0 \<le> queue_update cfg"
  shows "fst (drain_loop n cfg h job_name w) = Blocked
       \<and> trace (snd (drain_loop n cfg h job_name w)) =
           trace w
           @ concat (replicate n [Popen (get_jobs_in_queue_name_stat cfg (getuser h)),
                                  Sleep (queue_update cfg)])"
  using assms
proof (induction n arbitrary: w)
  case 0
  then show ?case by simp
next
  case (Suc n)
  let ?w = "emit [Sleep (queue_update cfg)] (snd (get_jobs_in_queue_name cfg h job_name w))"
  have w': "trace ?w = trace w @ [Popen (get_jobs_in_queue_name_stat cfg (getuser h)),
                                  Sleep (queue_update cfg)]"
      "npopen ?w = Suc (npopen w)"
    by (simp_all add: emit_def get_jobs_in_queue_name_world)
  from Suc.prems(1) have "0 < fragment_count cfg h job_name (npopen w)"
    by (metis add.right_neutral zero_less_Suc)
  then have step: "drain_loop (Suc n) cfg h job_name w = drain_loop n cfg h job_name ?w"
    using Suc.prems(2) by (rule drain_loop_sleeps)
  have "\<forall>i<n. 0 < fragment_count cfg h job_name (npopen ?w + i)"
  proof (intro allI impI)
    fix i assume "i < n"
    then have "Suc i < Suc n" by simp
    with Suc.prems(1) have "0 < fragment_count cfg h job_name (npopen w + Suc i)"
      by blast
    then show "0 < fragment_count cfg h job_name (npopen ?w + i)" by (simp add: w')
  qed
  from Suc.IH [OF this Suc.prems(2)] show ?case
    unfolding step by (simp add: w')
qed

lemma drain_loop_calls:
  "calls (trace (snd (drain_loop n cfg h job_name w))) = calls (trace w)"
proof (induction n arbitrary: w)
  case 0
  then show ?case by simp
next
  case (Suc n)
  let ?w = "emit [Sleep (queue_update cfg)] (snd (get_jobs_in_queue_name cfg h job_name w))"
  have w': "calls (trace ?w) = calls (trace w)"
    by (simp add: emit_def get_jobs_in_queue_name_world calls_append)
  show ?case
  proof (cases "0 < fragment_count cfg h job_name (npopen w) \<and> 0 \<le> queue_update cfg")
    case True
    then have "drain_loop (Suc n) cfg h job_name w = drain_loop n cfg h job_name ?w"
      by (simp add: drain_loop_sleeps del: drain_loop.simps)
    then show ?thesis
      by (simp only: Suc.IH w')
  next
    case False
    then show ?thesis
      by (subst drain_loop.simps, subst get_jobs_in_queue_name_eq)
         (auto simp: time_sleep_def get_jobs_in_queue_name_world calls_append)
  qed
qed


lemma submit_commands_Cons:
  "submit_commands n cfg h (command # rest) job_name w =
     (if fst (submit_job_when_ready n cfg h command job_name w) = Returned
      then submit_commands n cfg h rest job_name
             (snd (submit_job_when_ready n cfg h command job_name w))
      else submit_job_when_ready n cfg h command job_name w)"
  by (simp split: prod.splits outcome.splits)


lemma submit_commands_idle:
  assumes below: "\<forall>i. total_count cfg h i < maximum_jobs cfg"
      and env: "env_complete h"
      and rm: "\<forall>f i. \<not> remove_fails h f i"
      and n: "0 < n"
  shows "fst (submit_commands n cfg h command_list job_name w) = Returned
       \<and> trace (snd (submit_commands n cfg h command_list job_name w)) =
           trace w
           @ concat (map (\<lambda>command.
                 [Popen (get_jobs_in_queue_stat cfg (getuser h)),
                  Popen (get_jobs_in_queue_stat cfg (getuser h))]
                 @ script_events cfg h command job_name @ [Remove (script_filename job_name)])
               command_list)
       \<and> npopen (snd (submit_commands n cfg h command_list job_name w)) =
           npopen w + 2 * length command_list"
proof (induction command_list arbitrary: w)
  case Nil
  then show ?case by simp
next
  case (Cons command rest)
  let ?r = "submit_job_when_ready n cfg h command job_name w"
  have r: "fst ?r = Returned
       \<and> trace (snd ?r) =
           trace w @ [Popen (get_jobs_in_queue_stat cfg (getuser h)),
                      Popen (get_jobs_in_queue_stat cfg (getuser h))]
           @ script_events cfg h command job_name @ [Remove (script_filename job_name)]
       \<and> npopen (snd ?r) = npopen w + 2
       \<and> nremove (snd ?r) = Suc (nremove w)"
    by (rule submit_job_when_ready_immediate) (use below env rm n in simp_all)
  then have eq: "submit_commands n cfg h (command # rest) job_name w =
                   submit_commands n cfg h rest job_name (snd ?r)"
    unfolding submit_commands_Cons by simp
  from Cons.IH [of "snd ?r"] r show ?case
    unfolding eq by simp
qed

lemma submit_job_list_no_wait:
  "submit_job_list n cfg h command_list job_name False w =
     submit_commands n cfg h command_list job_name w"
  by (simp add: submit_job_list_def split: prod.splits outcome.splits)

lemma submit_job_list_wait:
  "submit_job_list n cfg h command_list job_name True w =
     (if fst (submit_commands n cfg h command_list job_name w) = Returned
      then drain_loop n cfg h job_name (snd (submit_commands n cfg h command_list job_name w))
      else submit_commands n cfg h command_list job_name w)"
  by (simp add: submit_job_list_def split: prod.splits outcome.splits)






text \<open>
  C5: with \<open>wait_for_completion\<close>, once the commands are submitted (the world is \<open>w1\<close> then)
  \<open>submit_job_list\<close> asks \<open>get_jobs_in_queue_name\<close> for the job name again and again. When
  the first \<open>k\<close> answers are positive and the next is 0, it sleeps \<open>queue_update\<close> seconds
  after each of the \<open>k\<close>, and returns right after the query that answers 0, the
  \<open>(k+1)\<close>-th; cut off after \<open>n \<le> k\<close> queries it has not returned. For the answers
  2, 1, 0 that is three queries and two sleeps.
\<close>

theorem C5_drain_until_zero:
  assumes "submit_commands n cfg h command_list job_name w = (Returned, w1)"
      and "\<forall>i<k. 0 < fragment_count cfg h job_name (npopen w1 + i)"
      and "fragment_count cfg h job_name (npopen w1 + k) = 0"
      and "0 \<le> queue_update cfg"
  shows "(k < n \<longrightarrow>
            fst (submit_job_list n cfg h command_list job_name True w) = Returned
          \<and> trace (snd (submit_job_list n cfg h command_list job_name True w)) =
              trace w1
              @ concat (replicate k [Popen (get_jobs_in_queue_name_stat cfg (getuser h)),
                                     Sleep (queue_update cfg)])
              @ [Popen (get_jobs_in_queue_name_stat cfg (getuser h))])
       \<and> (n \<le> k \<longrightarrow>
            fst (submit_job_list n cfg h command_list job_name True w) = Blocked
          \<and> trace (snd (submit_job_list n cfg h command_list job_name True w)) =
              trace w1
              @ concat (replicate n [Popen (get_jobs_in_queue_name_stat cfg (getuser h)),
                                     Sleep (queue_update cfg)]))"
proof -
  have eq: "submit_job_list n cfg h command_list job_name True w =
              drain_loop n cfg h job_name w1"
    by (simp add: submit_job_list_wait assms(1))
  show ?thesis
  proof (intro conjI impI)
    assume "k < n"
    with assms(2-4) have "fst (drain_loop n cfg h job_name w1) = Returned
       \<and> trace (snd (drain_loop n cfg h job_name w1)) =
           trace w1
           @ concat (replicate k [Popen (get_jobs_in_queue_name_stat cfg (getuser h)),
                                  Sleep (queue_update cfg)])
           @ [Popen (get_jobs_in_queue_name_stat cfg (getuser h))]
       \<and> npopen (snd (drain_loop n cfg h job_name w1)) = npopen w1 + Suc k
       \<and> nremove (snd (drain_loop n cfg h job_name w1)) = nremove w1"
      by (intro drain_loop_drains)
    then show "fst (submit_job_list n cfg h command_list job_name True w) = Returned"
      and "trace (snd (submit_job_list n cfg h command_list job_name True w)) =
              trace w1
              @ concat (replicate k [Popen (get_jobs_in_queue_name_stat cfg (getuser h)),
                                     Sleep (queue_update cfg)])
              @ [Popen (get_jobs_in_queue_name_stat cfg (getuser h))]"
      unfolding eq by simp_all
  next
    assume "n \<le> k"
    with assms(2) have "\<forall>i<n. 0 < fragment_count cfg h job_name (npopen w1 + i)"
      by simp
    from drain_loop_blocked [OF this assms(4)]
    show "fst (submit_job_list n cfg h command_list job_name True w) = Blocked"
      and "trace (snd (submit_job_list n cfg h command_list job_name True w)) =
              trace w1
              @ concat (replicate n [Popen (get_jobs_in_queue_name_stat cfg (getuser h)),
                                     Sleep (queue_update cfg)])"
      unfolding eq by simp_all
  qed
qed

theorem C5_drain_until_zero_witness:
  "fst (submit_job_list 3 default_config host_draining [''cmd''] ''batch'' True world0) = Returned
   \<and> trace (snd (submit_job_list 3 default_config host_draining [''cmd''] ''batch'' True world0)) =
       [Popen ''qstat -u alice'', Popen ''qstat -u alice'']
       @ script_events default_config host_draining ''cmd'' ''batch''
       @ [Remove ''./submit_batch.sh'',
          Popen ''qstat -u alice -xml '', Sleep 60,
          Popen ''qstat -u alice -xml '', Sleep 60,
          Popen ''qstat -u alice -xml '']"
proof -
  define s where "s = submit_commands 3 default_config host_draining [''cmd''] ''batch'' world0"
  define w1 where "w1 = snd s"
  have s: "fst s = Returned
       \<and> trace (snd s) =
           trace world0
           @ concat (map (\<lambda>command.
                 [Popen (get_jobs_in_queue_stat default_config (getuser host_draining)),
                  Popen (get_jobs_in_queue_stat default_config (getuser host_draining))]
                 @ script_events default_config host_draining command ''batch''
                 @ [Remove (script_filename ''batch'')])
               [''cmd''])
       \<and> npopen (snd s) = npopen world0 + 2 * length [''cmd'']"
    unfolding s_def
  proof (rule submit_commands_idle)
    show "\<forall>i. total_count default_config host_draining i < maximum_jobs default_config"
      using total_count_host_draining by (simp add: default_config_def)
    show "env_complete host_draining"
      by (simp add: env_complete_def host_draining_def host_idle_def)
    show "\<forall>f i. \<not> remove_fails host_draining f i"
      by (simp add: host_draining_def host_idle_def)
  qed simp
  then have np: "npopen w1 = 2"
    and tr: "trace w1 =
           [Popen (get_jobs_in_queue_stat default_config (getuser host_draining)),
            Popen (get_jobs_in_queue_stat default_config (getuser host_draining))]
           @ script_events default_config host_draining ''cmd'' ''batch''
           @ [Remove (script_filename ''batch'')]"
    by (simp_all add: world0_def w1_def)
  from s have sub: "submit_commands 3 default_config host_draining [''cmd''] ''batch'' world0 =
                      (Returned, w1)"
    unfolding w1_def s_def by (simp add: prod_eq_iff)
  have pos: "\<forall>i<2. 0 < fragment_count default_config host_draining ''batch'' (npopen w1 + i)"
    by (auto simp: np fragment_count_host_draining dest: less_2_cases)
  have zero: "fragment_count default_config host_draining ''batch'' (npopen w1 + 2) = 0"
    by (simp add: np fragment_count_host_draining)
  have qu: "0 \<le> queue_update default_config"
    by (simp add: default_config_def)
  have two: "replicate 2 x = [x, x]" for x :: "event list"
    by (simp add: numeral_2_eq_2)
  from C5_drain_until_zero [OF sub pos zero qu] show ?thesis
    by (simp add: two tr)
       (simp add: get_jobs_in_queue_stat_def get_jobs_in_queue_name_stat_def script_filename_def
          default_config_def host_draining_def host_idle_def)
qed

text \<open>
  C9: for the empty list, \<open>submit_job_list\<close> without \<open>wait_for_completion\<close> does nothing at
  all, and with it never calls \<open>qsub\<close>. With \<open>wait_for_completion\<close> it still asks for the
  jobs whose listing contains the job name: on the answer 0 it returns after that one
  query; on a positive answer (jobs of another batch may match) it sleeps and goes on as
  before, with one iteration less to go.
\<close>

theorem C9_empty_command_list:
  "submit_job_list n cfg h [] job_name False w = (Returned, w)
   \<and> calls (trace (snd (submit_job_list n cfg h [] job_name wait_for_completion w))) =
       calls (trace w)
   \<and> (fragment_count cfg h job_name (npopen w) = 0 \<and> 0 < n \<longrightarrow>
        fst (submit_job_list n cfg h [] job_name True w) = Returned
      \<and> trace (snd (submit_job_list n cfg h [] job_name True w)) =
          trace w @ [Popen (get_jobs_in_queue_name_stat cfg (getuser h))])
   \<and> (0 < fragment_count cfg h job_name (npopen w) \<and> 0 \<le> queue_update cfg \<longrightarrow>
        submit_job_list (Suc n) cfg h [] job_name True w =
          submit_job_list n cfg h [] job_name True
            (emit [Sleep (queue_update cfg)] (snd (get_jobs_in_queue_name cfg h job_name w))))"
proof (intro conjI impI)
  show "submit_job_list n cfg h [] job_name False w = (Returned, w)"
    by (simp add: submit_job_list_no_wait)
  show "calls (trace (snd (submit_job_list n cfg h [] job_name wait_for_completion w))) =
       calls (trace w)"
    by (cases wait_for_completion)
       (simp_all add: submit_job_list_no_wait submit_job_list_wait drain_loop_calls)
next
  assume a: "fragment_count cfg h job_name (npopen w) = 0 \<and> 0 < n"
  then obtain m where n: "n = Suc m" by (cases n) auto
  from a have "drain_loop (Suc m) cfg h job_name w =
                 (Returned, snd (get_jobs_in_queue_name cfg h job_name w))"
    by (intro drain_loop_returns) simp
  then show "fst (submit_job_list n cfg h [] job_name True w) = Returned"
    and "trace (snd (submit_job_list n cfg h [] job_name True w)) =
          trace w @ [Popen (get_jobs_in_queue_name_stat cfg (getuser h))]"
    by (simp_all add: n submit_job_list_wait get_jobs_in_queue_name_world
          del: drain_loop.simps)
next
  assume "0 < fragment_count cfg h job_name (npopen w) \<and> 0 \<le> queue_update cfg"
  then have "drain_loop (Suc n) cfg h job_name w =
           drain_loop n cfg h job_name
             (emit [Sleep (queue_update cfg)] (snd (get_jobs_in_queue_name cfg h job_name w)))"
    by (intro drain_loop_sleeps) simp_all
  then show "submit_job_list (Suc n) cfg h [] job_name True w =
          submit_job_list n cfg h [] job_name True
            (emit [Sleep (queue_update cfg)] (snd (get_jobs_in_queue_name cfg h job_name w)))"
    by (simp add: submit_job_list_wait del: drain_loop.simps)
qed

theorem C9_empty_command_list_witness:
  "fst (submit_job_list 1 default_config host_idle [] ''job'' True world0) = Returned
   \<and> trace (snd (submit_job_list 1 default_config host_idle [] ''job'' True world0)) =
       [Popen ''qstat -u alice -xml '']
   \<and> fst (submit_job_list 1 default_config host_two_names [] ''job'' True world0) = Blocked
   \<and> trace (snd (submit_job_list 1 default_config host_two_names [] ''job'' True world0)) =
       [Popen ''qstat -u alice -xml '', Sleep 60]"
proof -
  have a: "fragment_count default_config host_idle ''job'' (npopen world0) = 0 \<and> 0 < Suc 0"
    by (simp add: fragment_count_host_idle)
  have b: "0 < fragment_count default_config host_two_names ''job'' (npopen world0)
           \<and> 0 \<le> queue_update default_config"
    by (simp add: fragment_count_host_two_names default_config_def)
  from C9_empty_command_list [of "Suc 0" default_config host_idle "''job''" world0] a
  have 1: "fst (submit_job_list (Suc 0) default_config host_idle [] ''job'' True world0) = Returned
      \<and> trace (snd (submit_job_list (Suc 0) default_config host_idle [] ''job'' True world0)) =
          trace world0 @ [Popen (get_jobs_in_queue_name_stat default_config (getuser host_idle))]"
    by blast
  from C9_empty_command_list [of 0 default_config host_two_names "''job''" world0] b
  have 2: "submit_job_list (Suc 0) default_config host_two_names [] ''job'' True world0 =
          submit_job_list 0 default_config host_two_names [] ''job'' True
            (emit [Sleep (queue_update default_config)]
               (snd (get_jobs_in_queue_name default_config host_two_names ''job'' world0)))"
    by blast
  have 3: "submit_job_list 0 cfg h [] j True w' = (Blocked, w')" for cfg h j w'
    by (simp add: submit_job_list_wait)
  have tw: "trace world0 = []"
    by (simp add: world0_def)
  show ?thesis
    using 1 by (simp add: 2 3 emit_def get_jobs_in_queue_name_world tw)
       (simp add: get_jobs_in_queue_name_stat_def default_config_def host_idle_def
          host_two_names_def)
qed

end
